theory Spec2Isabelle
  imports Main "HOL-Library.Word"
begin

section \<open>The working-memory cache of xk6-working-memory\<close>

text \<open>
  The package \<open>memory\<close> (memory/memory.go) wraps one in-memory TTL store of the library
  github.com/patrickmn/go-cache in a struct \<open>Cache\<close> and exposes \<open>Init\<close>, \<open>Set\<close>,
  \<open>Get\<close> and \<open>Flush\<close>. Every method holds the struct's mutex from entry to return, so a
  method call is one atomic step on the state; the model is sequential state passing.

  Go's \<open>int\<close> (on a 64-bit platform), \<open>time.Duration\<close> and the Unix nanosecond timestamps
  are 64-bit two's complement integers: \<open>64 word\<close>, with wrapping \<open>+\<close> and \<open>*\<close>, compared
  as signed numbers (\<open><s\<close>).
\<close>

type_synonym int64 = "64 word"

text \<open>\<open>time.Second\<close>, a \<open>time.Duration\<close> counted in nanoseconds.\<close>

definition Second :: int64 where
  "Second = 1000000000"

text \<open>A Go \<open>error\<close> value made by \<open>errors.New\<close>.\<close>

datatype error = errors_New string

text \<open>
  A Go \<open>interface{}\<close> value: \<open>nil\<close>, a string, or a value of any other dynamic type (the
  number only tells such values apart).
\<close>

datatype iface = NilValue | StringValue string | OtherValue nat

text \<open>A call either returns or panics (a failed type assertion \<open>value.(string)\<close>).\<close>

datatype 'a outcome = Returns 'a | Panics

subsection \<open>The TTL store of go-cache\<close>

text \<open>
  memory.go stores everything in a \<open>*cache.Cache\<close> of github.com/patrickmn/go-cache and
  calls its \<open>New\<close>, \<open>Set\<close>, \<open>Get\<close> and \<open>Flush\<close>. The library is a dependency: its code
  is not among the sources, so the definitions of this subsection follow the spec's account
  of the TTL store and of the janitor, with the sentinels that the source names
  (\<open>cache.DefaultExpiration\<close>) and the library documents. The library reads the clock
  (\<open>time.Now().UnixNano()\<close>, a signed 64-bit count of nanoseconds) once in each \<open>Set\<close>,
  each \<open>Get\<close> and each sweep; the reading is a parameter of the model.
\<close>

text \<open>
  Modelled from the spec: the library's entry type is missing. An entry has a value (any
  \<open>interface{}\<close>) and \<open>expiresAt\<close>, an absolute timestamp or a sentinel meaning "never
  expires"; the sentinel is a timestamp that is not positive.
\<close>

record Item =
  Object :: iface
  Expiration :: int64

text \<open>
  Modelled from the spec: the library's store type is missing. A store is a mapping from
  key to entry with a default TTL; \<open>janitor\<close> is the period of its running janitor, if one
  runs.
\<close>

record gocache =
  defaultExpiration :: int64
  items :: "string \<rightharpoonup> Item"
  janitor :: "int64 option"

text \<open>
  Modelled from the spec: the library's constant \<open>DefaultExpiration\<close> is missing; it is the
  duration 0, which asks \<open>Set\<close> for the store's default TTL.
\<close>

definition DefaultExpiration :: int64 where
  "DefaultExpiration = 0"

text \<open>
  Modelled from the spec: the library's constant \<open>NoExpiration\<close> is missing; it is the
  duration -1, a default TTL that signals "never expire".
\<close>

definition NoExpiration :: int64 where
  "NoExpiration = - 1"

text \<open>
  Modelled from the spec: the library's expiry test is missing. An entry has expired at
  \<open>now\<close> when it has a deadline and the deadline lies in the past.
\<close>

definition Expired :: "Item \<Rightarrow> int64 \<Rightarrow> bool" where
  "Expired it now \<longleftrightarrow> 0 <s Expiration it \<and> Expiration it <s now"

text \<open>
  Modelled from the spec: \<open>cache.New(defaultExpiration, cleanupInterval)\<close> is missing. It
  makes an empty store configured with the given durations and starts the janitor; a
  default TTL of 0 becomes \<open>NoExpiration\<close>, and the janitor runs only when its period is
  positive.
\<close>

definition gocache_New :: "int64 \<Rightarrow> int64 \<Rightarrow> gocache" where
  "gocache_New de ci =
     \<lparr>defaultExpiration = (if de = 0 then NoExpiration else de),
      items = Map.empty,
      janitor = (if 0 <s ci then Some ci else None)\<rparr>"

text \<open>
  Modelled from the spec: the library's \<open>Set(k, x, d)\<close> is missing. It inserts or
  overwrites the entry for \<open>k\<close>; the duration \<open>DefaultExpiration\<close> stands for the store's
  default TTL; a positive TTL gives the deadline \<open>now + ttl\<close> (64-bit addition), any other
  TTL gives an entry that never expires.
\<close>

definition gocache_Set :: "gocache \<Rightarrow> string \<Rightarrow> iface \<Rightarrow> int64 \<Rightarrow> int64 \<Rightarrow> gocache" where
  "gocache_Set g k x d now =
     (let d' = (if d = DefaultExpiration then defaultExpiration g else d);
          e = (if 0 <s d' then now + d' else 0)
      in g\<lparr>items := (items g)(k \<mapsto> \<lparr>Object = x, Expiration = e\<rparr>)\<rparr>)"

text \<open>
  Modelled from the spec: the library's \<open>Get(k)\<close> is missing. It returns the value and a
  found/not-found indicator; an entry whose deadline has passed is treated as not found,
  whether or not the janitor has removed it. The lookup removes nothing.
\<close>

definition gocache_Get :: "gocache \<Rightarrow> string \<Rightarrow> int64 \<Rightarrow> iface \<times> bool" where
  "gocache_Get g k now =
     (case items g k of
        None \<Rightarrow> (NilValue, False)
      | Some it \<Rightarrow> if Expired it now then (NilValue, False) else (Object it, True))"

text \<open>Modelled from the spec: the library's \<open>Flush()\<close> is missing. It removes all entries.\<close>

definition gocache_Flush :: "gocache \<Rightarrow> gocache" where
  "gocache_Flush g = g\<lparr>items := Map.empty\<rparr>"

text \<open>
  Modelled from the spec: the janitor's sweep is missing. It scans all entries and deletes
  those whose deadline has passed as of the scan time \<open>now\<close>.
\<close>

definition gocache_DeleteExpired :: "gocache \<Rightarrow> int64 \<Rightarrow> gocache" where
  "gocache_DeleteExpired g now =
     g\<lparr>items := (\<lambda>k. case items g k of
                        None \<Rightarrow> None
                      | Some it \<Rightarrow> if Expired it now then None else Some it)\<rparr>"

subsection \<open>The struct Cache and its methods (memory/memory.go)\<close>

text \<open>
  \<open>type Cache struct { cache *cache.Cache; mutex sync.Mutex }\<close>. The pointer is \<open>nil\<close>
  (\<open>None\<close>) until \<open>Init\<close> has run; \<open>&Cache{}\<close> is \<open>fresh\<close>.
\<close>

record Cache =
  cache :: "gocache option"

definition fresh :: Cache where
  "fresh = \<lparr>cache = None\<rparr>"

text \<open>The error that \<open>Set\<close>, \<open>Get\<close> and \<open>Flush\<close> return while the pointer is \<open>nil\<close>.\<close>

definition errNotInitialized :: error where
  "errNotInitialized = errors_New ''cache not initialized: please call init() first''"

text \<open>
  \<open>Init(defaultExpiration, cleanupInterval int)\<close>: both arguments are seconds; the product
  with \<open>time.Second\<close> is a 64-bit multiplication. The new store replaces the old one.
\<close>

definition Cache_Init :: "Cache \<Rightarrow> int64 \<Rightarrow> int64 \<Rightarrow> Cache" where
  "Cache_Init c defaultExpiration' cleanupInterval =
     (let expiration = defaultExpiration' * Second;
          cleanup = cleanupInterval * Second
      in c\<lparr>cache := Some (gocache_New expiration cleanup)\<rparr>)"

text \<open>
  \<open>Set(id, value string, expiration ...int) (bool, error)\<close>. The variadic argument is a
  list. \<open>t_store\<close> and \<open>t_lookup\<close> are the clock readings of the library's \<open>Set\<close> and of the
  \<open>Get\<close> that follows it.
\<close>

definition Cache_Set ::
  "Cache \<Rightarrow> string \<Rightarrow> string \<Rightarrow> int64 list \<Rightarrow> int64 \<Rightarrow> int64 \<Rightarrow> Cache \<times> bool \<times> error option" where
  "Cache_Set c id' value expiration t_store t_lookup =
     (case cache c of
        None \<Rightarrow> (c, False, Some errNotInitialized)
      | Some g \<Rightarrow>
          (let exp = (case expiration of [] \<Rightarrow> DefaultExpiration | e # _ \<Rightarrow> e * Second);
               g' = gocache_Set g id' (StringValue value) exp t_store;
               found = snd (gocache_Get g' id' t_lookup)
           in (c\<lparr>cache := Some g'\<rparr>, found, None)))"

text \<open>
  \<open>Get(id string) (interface{}, error)\<close>; \<open>value.(string)\<close> panics unless the stored object
  is a string. \<open>Get\<close> leaves the state as it is.
\<close>

definition Cache_Get :: "Cache \<Rightarrow> string \<Rightarrow> int64 \<Rightarrow> (iface \<times> error option) outcome" where
  "Cache_Get c id' now =
     (case cache c of
        None \<Rightarrow> Returns (NilValue, Some errNotInitialized)
      | Some g \<Rightarrow>
          (case gocache_Get g id' now of
             (value, True) \<Rightarrow>
               (case value of StringValue s \<Rightarrow> Returns (StringValue s, None) | _ \<Rightarrow> Panics)
           | (value, False) \<Rightarrow> Returns (NilValue, None)))"

text \<open>\<open>Flush() error\<close>.\<close>

definition Cache_Flush :: "Cache \<Rightarrow> Cache \<times> error option" where
  "Cache_Flush c =
     (case cache c of
        None \<Rightarrow> (c, Some errNotInitialized)
      | Some g \<Rightarrow> (c\<lparr>cache := Some (gocache_Flush g)\<rparr>, None))"

subsection \<open>The events of a run\<close>

text \<open>
  Modelled from the spec: the janitor is missing. It is started with the store, by
  \<open>cache.New\<close>, and sweeps the store it was started for; a sweep excludes the other
  operations on the store, so it is an atomic step between two calls. This is one sweep of
  the janitor of the current store, if that store has one.
\<close>

definition janitor_sweep :: "Cache \<Rightarrow> int64 \<Rightarrow> Cache" where
  "janitor_sweep c now =
     (case cache c of
        None \<Rightarrow> c
      | Some g \<Rightarrow>
          (case janitor g of
             None \<Rightarrow> c
           | Some _ \<Rightarrow> c\<lparr>cache := Some (gocache_DeleteExpired g now)\<rparr>))"

text \<open>
  A caller's calls (each with the clock readings it meets) interleaved with sweeps of the
  janitor, and what each call returns. A run stops at the first panic.
\<close>

datatype event =
    CallInit int64 int64
  | CallSet string string "int64 list" int64 int64
  | CallGet string int64
  | CallFlush
  | JanitorSweep int64

datatype reply =
    InitReply
  | SetReply bool "error option"
  | GetReply iface "error option"
  | FlushReply "error option"
  | NoReply

fun step :: "Cache \<Rightarrow> event \<Rightarrow> (Cache \<times> reply) outcome" where
  "step c (CallInit de ci) = Returns (Cache_Init c de ci, InitReply)"
| "step c (CallSet k v expiration t_store t_lookup) =
     (case Cache_Set c k v expiration t_store t_lookup of
        (c', ok, err) \<Rightarrow> Returns (c', SetReply ok err))"
| "step c (CallGet k now) =
     (case Cache_Get c k now of
        Panics \<Rightarrow> Panics
      | Returns (v, err) \<Rightarrow> Returns (c, GetReply v err))"
| "step c CallFlush =
     (case Cache_Flush c of (c', err) \<Rightarrow> Returns (c', FlushReply err))"
| "step c (JanitorSweep now) = Returns (janitor_sweep c now, NoReply)"

fun run :: "Cache \<Rightarrow> event list \<Rightarrow> (Cache \<times> reply list) outcome" where
  "run c [] = Returns (c, [])"
| "run c (e # es) =
     (case step c e of
        Panics \<Rightarrow> Panics
      | Returns (c', r) \<Rightarrow>
          (case run c' es of
             Panics \<Rightarrow> Panics
           | Returns (c'', rs) \<Rightarrow> Returns (c'', r # rs)))"

subsection \<open>Vocabulary of the statements\<close>

text \<open>
  The TTL that \<open>Set\<close> gives an entry: the first optional argument in seconds, the store's
  default when the argument is absent or its duration is 0; a TTL that is not positive
  means no deadline. \<open>deadline\<close> is the \<open>Expiration\<close> the entry gets at clock reading \<open>t\<close>.
\<close>

definition ttl_of :: "gocache \<Rightarrow> int64 list \<Rightarrow> int64" where
  "ttl_of g expiration =
     (let exp = (case expiration of [] \<Rightarrow> DefaultExpiration | e # _ \<Rightarrow> e * Second)
      in if exp = DefaultExpiration then defaultExpiration g else exp)"

definition deadline :: "gocache \<Rightarrow> int64 list \<Rightarrow> int64 \<Rightarrow> int64" where
  "deadline g expiration t = (if 0 <s ttl_of g expiration then t + ttl_of g expiration else 0)"

text \<open>
  No TTL has elapsed: the entry stored at \<open>t_store\<close> never expires, or the time from
  \<open>t_store\<close> to \<open>now\<close> (as a number, without wrap-around) is at most its TTL.
\<close>

definition within_ttl :: "gocache \<Rightarrow> int64 list \<Rightarrow> int64 \<Rightarrow> int64 \<Rightarrow> bool" where
  "within_ttl g expiration t_store now \<longleftrightarrow>
     (0 <s ttl_of g expiration \<longrightarrow> sint now - sint t_store \<le> sint (ttl_of g expiration))"

text \<open>Every object in the store is a string.\<close>

definition strings_only :: "Cache \<Rightarrow> bool" where
  "strings_only c \<longleftrightarrow>
     (\<forall>g k it. cache c = Some g \<longrightarrow> items g k = Some it \<longrightarrow> (\<exists>s. Object it = StringValue s))"

subsection \<open>The stores and janitors of a process\<close>

text \<open>
  \<open>Init\<close> overwrites the pointer \<open>c.cache\<close> with the store that \<open>cache.New\<close> has just made
  (and whose janitor \<open>cache.New\<close> has just started); the body of \<open>Init\<close> holds no call that
  stops anything. The store the pointer held before is no longer reachable from the
  \<open>Cache\<close>, but its janitor still holds it. A process is therefore the shared \<open>Cache\<close>
  together with the stores that \<open>Init\<close> has replaced, newest first, each with the state of
  its janitor (the field \<open>janitor\<close>). \<open>Set\<close>, \<open>Get\<close> and \<open>Flush\<close> reach the current store
  only, so they act on \<open>shared\<close> and leave \<open>discarded\<close> as it is.
\<close>

record process =
  shared :: Cache
  discarded :: "gocache list"

text \<open>The process after \<open>New()\<close> has made the \<open>Cache\<close>: no store yet.\<close>

definition new_process :: process where
  "new_process = \<lparr>shared = fresh, discarded = []\<rparr>"

definition process_Init :: "process \<Rightarrow> int64 \<Rightarrow> int64 \<Rightarrow> process" where
  "process_Init p de ci =
     \<lparr>shared = Cache_Init (shared p) de ci,
      discarded = (case cache (shared p) of
                     None \<Rightarrow> discarded p
                   | Some g \<Rightarrow> g # discarded p)\<rparr>"

definition process_Set ::
  "process \<Rightarrow> string \<Rightarrow> string \<Rightarrow> int64 list \<Rightarrow> int64 \<Rightarrow> int64 \<Rightarrow> process \<times> bool \<times> error option" where
  "process_Set p id' value expiration t_store t_lookup =
     (case Cache_Set (shared p) id' value expiration t_store t_lookup of
        (c', ok, err) \<Rightarrow> (p\<lparr>shared := c'\<rparr>, ok, err))"

text \<open>Every store of the process, the current one first.\<close>

definition stores :: "process \<Rightarrow> gocache list" where
  "stores p = (case cache (shared p) of None \<Rightarrow> [] | Some g \<Rightarrow> [g]) @ discarded p"

text \<open>The number of janitors that are running.\<close>

definition running_janitors :: "process \<Rightarrow> nat" where
  "running_janitors p = length (filter (\<lambda>g. janitor g \<noteq> None) (stores p))"

text \<open>
  Modelled from the spec: the janitor is missing. One sweep, at clock reading \<open>now\<close>, of the
  janitor of the \<open>i\<close>-th discarded store, if that janitor runs: it sweeps the store it was
  started for.
\<close>

definition stale_sweep :: "process \<Rightarrow> nat \<Rightarrow> int64 \<Rightarrow> process" where
  "stale_sweep p i now =
     (if i < length (discarded p) \<and> janitor (discarded p ! i) \<noteq> None
      then p\<lparr>discarded := (discarded p)[i := gocache_DeleteExpired (discarded p ! i) now]\<rparr>
      else p)"

section \<open>Properties\<close>

subsection \<open>Auxiliary facts\<close>

lemma deadline_not_passed:
  fixes t d now :: int64
  assumes d: "0 <s d" and el: "sint now - sint t \<le> sint d"
  shows "\<not> (0 <s t + d \<and> t + d <s now)"
proof -
  let ?s = "sint t + sint d"
  have bt: "- (2 ^ 63) \<le> sint t" "sint t < 2 ^ 63"
    using sint_ge [of t] sint_lt [of t] by simp_all
  have bd: "0 < sint d" "sint d < 2 ^ 63"
    using d sint_lt [of d] by (simp_all add: word_sless_alt)
  have e: "sint (t + d) = signed_take_bit 63 ?s"
    by (simp add: sint_word_ariths)
  show ?thesis
  proof (cases "?s < 2 ^ 63")
    case True
    then have "signed_take_bit 63 ?s = ?s"
      using bt bd by (intro signed_take_bit_int_eq_self) simp_all
    then have "sint now \<le> sint (t + d)" using e el by simp
    then show ?thesis by (simp add: word_sless_alt)
  next
    case False
    then have "signed_take_bit 63 ?s \<le> ?s - 2 ^ Suc 63"
      by (intro signed_take_bit_int_less_eq) simp
    moreover have "?s - 2 ^ Suc 63 < 0" using bt bd by simp
    ultimately have "sint (t + d) < 0" using e by linarith
    then show ?thesis by (simp add: word_sless_alt)
  qed
qed


lemma within_ttl_not_Expired:
  assumes "within_ttl g expiration t_store now"
  shows "\<not> Expired \<lparr>Object = x, Expiration = deadline g expiration t_store\<rparr> now"
proof (cases "0 <s ttl_of g expiration")
  case True
  with assms have "sint now - sint t_store \<le> sint (ttl_of g expiration)"
    by (simp add: within_ttl_def)
  from deadline_not_passed [OF True this] True show ?thesis
    by (simp add: Expired_def deadline_def)
next
  case False
  then show ?thesis by (simp add: Expired_def deadline_def)
qed

lemma Cache_Set_state:
  assumes "cache c = Some g"
  shows "fst (Cache_Set c k v expiration t_store t_lookup) =
           c\<lparr>cache := Some (g\<lparr>items := (items g)(k \<mapsto>
                \<lparr>Object = StringValue v, Expiration = deadline g expiration t_store\<rparr>)\<rparr>)\<rparr>"
  using assms
  by (simp add: Cache_Set_def gocache_Set_def deadline_def ttl_of_def Let_def)

lemma Cache_Set_found:
  assumes "cache c = Some g"
  shows "snd (Cache_Set c k v expiration t_store t_lookup) =
           (\<not> Expired \<lparr>Object = StringValue v, Expiration = deadline g expiration t_store\<rparr> t_lookup,
            None)"
  using assms
  by (simp add: Cache_Set_def gocache_Set_def gocache_Get_def deadline_def ttl_of_def Let_def)

lemma Cache_Get_live:
  assumes "cache c = Some g" and "items g k = Some it" and "\<not> Expired it now"
    and "Object it = StringValue s"
  shows "Cache_Get c k now = Returns (StringValue s, None)"
  using assms by (simp add: Cache_Get_def gocache_Get_def)

lemma Cache_Get_absent:
  assumes "cache c = Some g" and "items g k = None"
  shows "Cache_Get c k now = Returns (NilValue, None)"
  using assms by (simp add: Cache_Get_def gocache_Get_def)

lemma Cache_Get_expired:
  assumes "cache c = Some g" and "items g k = Some it" and "Expired it now"
  shows "Cache_Get c k now = Returns (NilValue, None)"
  using assms by (simp add: Cache_Get_def gocache_Get_def)

lemma Cache_Get_after_Set:
  assumes "cache c = Some g" and "within_ttl g expiration t_store now"
  shows "Cache_Get (fst (Cache_Set c k v expiration t_store t_lookup)) k now =
           Returns (StringValue v, None)"
proof -
  let ?it = "\<lparr>Object = StringValue v, Expiration = deadline g expiration t_store\<rparr>"
  let ?g = "g\<lparr>items := (items g)(k \<mapsto> ?it)\<rparr>"
  have st: "fst (Cache_Set c k v expiration t_store t_lookup) = c\<lparr>cache := Some ?g\<rparr>"
    by (rule Cache_Set_state [OF assms(1)])
  have "Cache_Get (c\<lparr>cache := Some ?g\<rparr>) k now = Returns (StringValue v, None)"
    by (rule Cache_Get_live [where g = ?g and it = ?it])
       (simp_all add: within_ttl_not_Expired [OF assms(2)])
  with st show ?thesis by simp
qed

text \<open>The clock readings and the store used in the examples.\<close>

lemma example_store:
  "cache (Cache_Init fresh 5 10) = Some (gocache_New (5 * Second) (10 * Second))"
  by (simp add: Cache_Init_def fresh_def)

lemma example_ttl:
  "ttl_of (gocache_New (5 * Second) (10 * Second)) [] = 5000000000"
  "ttl_of (gocache_New (5 * Second) (10 * Second)) [1] = 1000000000"
  "ttl_of (gocache_New (5 * Second) (10 * Second)) [0] = 5000000000"
  "ttl_of (gocache_New (5 * Second) (10 * Second)) [- 1] = - 1000000000"
  by (simp_all add: ttl_of_def gocache_New_def Second_def DefaultExpiration_def)

lemma Cache_Init_cache:
  "cache (Cache_Init c de ci) = Some (gocache_New (de * Second) (ci * Second))"
  by (simp add: Cache_Init_def Let_def)

lemma strings_only_Init: "strings_only (Cache_Init c de ci)"
  by (simp add: strings_only_def Cache_Init_cache gocache_New_def)

lemma strings_only_Set:
  assumes "strings_only c"
  shows "strings_only (fst (Cache_Set c k v expiration t_store t_lookup))"
proof (cases "cache c")
  case None
  with assms show ?thesis by (simp add: Cache_Set_def)
next
  case (Some g)
  from assms Some have "\<And>k' it. items g k' = Some it \<Longrightarrow> \<exists>s. Object it = StringValue s"
    by (simp add: strings_only_def)
  then show ?thesis
    unfolding Cache_Set_state [OF Some] by (auto simp: strings_only_def)
qed

lemma strings_only_Flush:
  "strings_only (fst (Cache_Flush c))"
  by (cases "cache c") (simp_all add: strings_only_def Cache_Flush_def gocache_Flush_def)

lemma strings_only_sweep:
  assumes "strings_only c"
  shows "strings_only (janitor_sweep c now)"
proof (cases "cache c")
  case None
  with assms show ?thesis by (simp add: janitor_sweep_def)
next
  case (Some g)
  from assms Some have "\<And>k' it. items g k' = Some it \<Longrightarrow> \<exists>s. Object it = StringValue s"
    by (simp add: strings_only_def)
  with assms Some show ?thesis
    by (cases "janitor g")
       (auto simp: janitor_sweep_def strings_only_def gocache_DeleteExpired_def
             split: option.splits if_splits)
qed

lemma strings_only_Get_returns:
  assumes "strings_only c"
  shows "\<exists>v err. Cache_Get c k now = Returns (v, err)"
proof (cases "cache c")
  case None
  then show ?thesis by (simp add: Cache_Get_def)
next
  case (Some g)
  show ?thesis
  proof (cases "items g k")
    case None
    from Cache_Get_absent [OF Some this] show ?thesis by blast
  next
    case (Some it)
    show ?thesis
    proof (cases "Expired it now")
      case True
      from Cache_Get_expired [OF \<open>cache c = Some g\<close> Some True] show ?thesis by blast
    next
      case False
      from assms \<open>cache c = Some g\<close> Some obtain s where "Object it = StringValue s"
        by (auto simp: strings_only_def)
      from Cache_Get_live [OF \<open>cache c = Some g\<close> Some False this] show ?thesis by blast
    qed
  qed
qed

lemma initialized_Set:
  "cache c \<noteq> None \<Longrightarrow> cache (fst (Cache_Set c k v expiration t_store t_lookup)) \<noteq> None"
  by (auto simp: Cache_Set_def Let_def)

lemma initialized_Flush: "cache c \<noteq> None \<Longrightarrow> cache (fst (Cache_Flush c)) \<noteq> None"
  by (auto simp: Cache_Flush_def)

lemma initialized_sweep: "cache c \<noteq> None \<Longrightarrow> cache (janitor_sweep c now) \<noteq> None"
  by (auto simp: janitor_sweep_def split: option.splits)

lemma step_returns:
  assumes "strings_only c"
  shows "\<exists>c' r. step c e = Returns (c', r) \<and> strings_only c'
           \<and> (cache c \<noteq> None \<longrightarrow> cache c' \<noteq> None)"
proof (cases e)
  case (CallInit de ci)
  then show ?thesis by (simp add: strings_only_Init Cache_Init_cache)
next
  case (CallSet k v expiration t_store t_lookup)
  obtain c' ok err where s: "Cache_Set c k v expiration t_store t_lookup = (c', ok, err)"
    by (cases "Cache_Set c k v expiration t_store t_lookup") auto
  from strings_only_Set [OF assms, of k v expiration t_store t_lookup] s
  have "strings_only c'" by simp
  moreover from initialized_Set [of c k v expiration t_store t_lookup] s
  have "cache c \<noteq> None \<longrightarrow> cache c' \<noteq> None" by simp
  ultimately show ?thesis using CallSet s by simp
next
  case (CallGet k now)
  from strings_only_Get_returns [OF assms, of k now] obtain v err
    where "Cache_Get c k now = Returns (v, err)" by blast
  with CallGet assms show ?thesis by simp
next
  case CallFlush
  obtain c' err where s: "Cache_Flush c = (c', err)" by (cases "Cache_Flush c") auto
  from strings_only_Flush [of c] s have "strings_only c'" by simp
  moreover from initialized_Flush [of c] s have "cache c \<noteq> None \<longrightarrow> cache c' \<noteq> None" by simp
  ultimately show ?thesis using CallFlush s by simp
next
  case (JanitorSweep now)
  with strings_only_sweep [OF assms, of now] initialized_sweep [of c now]
  show ?thesis by simp
qed

lemma run_returns:
  assumes "strings_only c"
  shows "\<exists>c' rs. run c es = Returns (c', rs) \<and> length rs = length es \<and> strings_only c'
           \<and> (cache c \<noteq> None \<longrightarrow> cache c' \<noteq> None)"
  using assms
proof (induction es arbitrary: c)
  case Nil
  then show ?case by simp
next
  case (Cons e es)
  from step_returns [OF Cons.prems, of e] obtain c1 r
    where s: "step c e = Returns (c1, r)" and so: "strings_only c1"
      and i1: "cache c \<noteq> None \<longrightarrow> cache c1 \<noteq> None" by blast
  from Cons.IH [OF so] obtain c' rs
    where r: "run c1 es = Returns (c', rs)" and l: "length rs = length es"
      and so': "strings_only c'" and i2: "cache c1 \<noteq> None \<longrightarrow> cache c' \<noteq> None" by blast
  from s r l so' i1 i2 show ?case by simp
qed

lemma run_snoc:
  assumes "run c es = Returns (c', rs)" and "step c' e = Returns (c'', r)"
  shows "run c (es @ [e]) = Returns (c'', rs @ [r])"
  using assms
proof (induction es arbitrary: c rs)
  case Nil
  then show ?case by simp
next
  case (Cons a es)
  from Cons.prems(1) obtain c1 r1 rs1
    where s: "step c a = Returns (c1, r1)" and t: "run c1 es = Returns (c', rs1)"
      and rs: "rs = r1 # rs1"
    by (auto split: outcome.splits prod.splits)
  from Cons.IH [OF t Cons.prems(2)] s rs show ?case by simp
qed

lemma length_filter_update:
  assumes "i < length xs" and "P y = P (xs ! i)"
  shows "length (filter P (xs[i := y])) = length (filter P xs)"
  using assms
proof (induction xs arbitrary: i)
  case Nil
  then show ?case by simp
next
  case (Cons x xs)
  then show ?case by (cases i) simp_all
qed

lemma fresh_strings_only: "strings_only fresh"
  by (simp add: strings_only_def fresh_def)

subsection \<open>Uninitialized access\<close>

text \<open>
  C1: on a cache on which \<open>Init\<close> has never run (the pointer is still \<open>nil\<close>), \<open>Set\<close> returns
  \<open>false\<close> with the not-initialized error, \<open>Get\<close> returns \<open>nil\<close> with that error, \<open>Flush\<close>
  returns that error, and \<open>Set\<close> and \<open>Flush\<close> hand back the state unchanged (\<open>Get\<close> never
  changes it).
\<close>

theorem uninitialized_access_fails:
  assumes "cache c = None"
  shows "Cache_Set c k v expiration t_store t_lookup = (c, False, Some errNotInitialized)
       \<and> Cache_Get c k now = Returns (NilValue, Some errNotInitialized)
       \<and> Cache_Flush c = (c, Some errNotInitialized)"
  using assms by (simp add: Cache_Set_def Cache_Get_def Cache_Flush_def)

theorem uninitialized_access_fails_witness:
  "cache fresh = None
   \<and> Cache_Set fresh ''k'' ''v'' [5] 1000 1001 = (fresh, False, Some errNotInitialized)
   \<and> Cache_Get fresh ''k'' 1000 = Returns (NilValue, Some errNotInitialized)
   \<and> Cache_Flush fresh = (fresh, Some errNotInitialized)"
proof -
  have h: "cache fresh = None" by (simp add: fresh_def)
  show ?thesis
    using h uninitialized_access_fails [OF h] by simp
qed

subsection \<open>Round trip and overwrite\<close>

text \<open>
  C2: on an initialized cache, \<open>Set(k, v)\<close> (with or without the optional expiration)
  followed by \<open>Get(k)\<close> before the entry's TTL has elapsed returns the string \<open>v\<close> and no
  error, for every key and value.
\<close>

theorem set_get_round_trip:
  assumes "cache c = Some g" and "within_ttl g expiration t_store now"
  shows "Cache_Get (fst (Cache_Set c k v expiration t_store t_lookup)) k now =
           Returns (StringValue v, None)"
  by (rule Cache_Get_after_Set [OF assms])

theorem set_get_round_trip_witness:
  "cache (Cache_Init fresh 5 10) = Some (gocache_New (5 * Second) (10 * Second))
   \<and> within_ttl (gocache_New (5 * Second) (10 * Second)) []
        1700000000000000000 1700000001000000000
   \<and> Cache_Get (fst (Cache_Set (Cache_Init fresh 5 10) ''testKey'' ''testValue'' []
        1700000000000000000 1700000000000000100)) ''testKey'' 1700000001000000000 =
      Returns (StringValue ''testValue'', None)"
proof -
  have h2: "within_ttl (gocache_New (5 * Second) (10 * Second)) []
              1700000000000000000 1700000001000000000"
    by (simp add: within_ttl_def example_ttl)
  show ?thesis
    using example_store h2 set_get_round_trip [OF example_store h2] by simp
qed




subsection \<open>Expiry\<close>

text \<open>
  C3: if the entry stored under \<open>k\<close> has a deadline and the deadline lies before the clock
  reading of \<open>Get(k)\<close>, then \<open>Get(k)\<close> returns \<open>nil\<close> and no error, both when the janitor
  has not swept and when it has swept (at whatever time) before the call.
\<close>

theorem expired_entry_not_returned:
  assumes "cache c = Some g" and "items g k = Some it"
    and "0 <s Expiration it" and "Expiration it <s now"
  shows "Cache_Get c k now = Returns (NilValue, None)
       \<and> Cache_Get (janitor_sweep c t_sweep) k now = Returns (NilValue, None)"
proof -
  have ex: "Expired it now" using assms(3,4) by (simp add: Expired_def)
  have a: "Cache_Get c k now = Returns (NilValue, None)"
    by (rule Cache_Get_expired [OF assms(1,2) ex])
  have b: "Cache_Get (janitor_sweep c t_sweep) k now = Returns (NilValue, None)"
  proof (cases "janitor g")
    case None
    with assms(1) a show ?thesis by (simp add: janitor_sweep_def)
  next
    case (Some p)
    let ?g = "gocache_DeleteExpired g t_sweep"
    have j: "janitor_sweep c t_sweep = c\<lparr>cache := Some ?g\<rparr>"
      using assms(1) Some by (simp add: janitor_sweep_def)
    have c': "cache (c\<lparr>cache := Some ?g\<rparr>) = Some ?g" by simp
    show ?thesis
    proof (cases "Expired it t_sweep")
      case True
      with assms(2) have "items ?g k = None" by (simp add: gocache_DeleteExpired_def)
      from Cache_Get_absent [OF c' this] j show ?thesis by simp
    next
      case False
      with assms(2) have "items ?g k = Some it" by (simp add: gocache_DeleteExpired_def)
      from Cache_Get_expired [OF c' this ex] j show ?thesis by simp
    qed
  qed
  from a b show ?thesis ..
qed

theorem expired_entry_not_returned_witness:
  "cache (fst (Cache_Set (Cache_Init fresh 1 1) ''expiringKey'' ''expiringValue'' [1]
       1700000000000000000 1700000000000000100)) =
     Some ((gocache_New (1 * Second) (1 * Second))
       \<lparr>items := [''expiringKey'' \<mapsto>
          \<lparr>Object = StringValue ''expiringValue'', Expiration = 1700000001000000000\<rparr>]\<rparr>)
   \<and> Cache_Get (fst (Cache_Set (Cache_Init fresh 1 1) ''expiringKey'' ''expiringValue'' [1]
       1700000000000000000 1700000000000000100)) ''expiringKey'' 1700000002000000000 =
     Returns (NilValue, None)
   \<and> Cache_Get (janitor_sweep (fst (Cache_Set (Cache_Init fresh 1 1) ''expiringKey''
       ''expiringValue'' [1] 1700000000000000000 1700000000000000100)) 1700000001500000000)
       ''expiringKey'' 1700000002000000000 =
     Returns (NilValue, None)"
proof -
  let ?it = "\<lparr>Object = StringValue ''expiringValue'', Expiration = 1700000001000000000\<rparr>"
  let ?g = "(gocache_New (1 * Second) (1 * Second))\<lparr>items := [''expiringKey'' \<mapsto> ?it]\<rparr>"
  let ?c = "fst (Cache_Set (Cache_Init fresh 1 1) ''expiringKey'' ''expiringValue'' [1]
       1700000000000000000 1700000000000000100)"
  have h1: "cache ?c = Some ?g"
    by (simp add: Cache_Set_def Cache_Init_def fresh_def gocache_Set_def gocache_New_def
        Second_def DefaultExpiration_def NoExpiration_def word_sless_alt Let_def)
  have h2: "items ?g ''expiringKey'' = Some ?it" by simp
  have h3: "0 <s Expiration ?it" by (simp add: word_sless_alt)
  have h4: "Expiration ?it <s 1700000002000000000" by (simp add: word_sless_alt)
  show ?thesis
    using h1 expired_entry_not_returned [OF h1 h2 h3 h4, of 1700000001500000000] by simp
qed

subsection \<open>Reinitialization and flush\<close>

text \<open>
  C5: whatever the cache held, once \<open>Set(k, v)\<close> has run and \<open>Init\<close> is called again, with
  any durations, the cache holds a new empty store, and \<open>Get(k)\<close> returns \<open>nil\<close> and no
  error.
\<close>

theorem reinit_resets_contents:
  "(\<exists>g'. cache (Cache_Init (fst (Cache_Set c k v expiration t_store t_lookup)) de ci) = Some g'
          \<and> items g' = Map.empty)
   \<and> Cache_Get (Cache_Init (fst (Cache_Set c k v expiration t_store t_lookup)) de ci) k now =
       Returns (NilValue, None)"
  by (simp add: Cache_Init_cache gocache_New_def Cache_Get_def gocache_Get_def)

theorem reinit_resets_contents_witness:
  "Cache_Get (fst (Cache_Set (Cache_Init fresh 5 10) ''k'' ''v'' []
       1700000000000000000 1700000000000000100)) ''k'' 1700000000000000200 =
     Returns (StringValue ''v'', None)
   \<and> Cache_Get (Cache_Init (fst (Cache_Set (Cache_Init fresh 5 10) ''k'' ''v'' []
       1700000000000000000 1700000000000000100)) 60 120) ''k'' 1700000000000000200 =
     Returns (NilValue, None)"
proof -
  have w: "within_ttl (gocache_New (5 * Second) (10 * Second)) []
              1700000000000000000 1700000000000000200"
    by (simp add: within_ttl_def example_ttl)
  show ?thesis
    using Cache_Get_after_Set [OF example_store w, of "''k''" "''v''" 1700000000000000100]
      reinit_resets_contents [of "Cache_Init fresh 5 10" "''k''" "''v''" "[]"
        1700000000000000000 1700000000000000100 60 120 1700000000000000200]
    by blast
qed

text \<open>
  C7: after any sequence of calls (and janitor sweeps) on a cache that has been initialized,
  \<open>Flush\<close> returns no error and leaves a store from which \<open>Get\<close> returns \<open>nil\<close> and no
  error for every key, hence for every key set before; and \<open>Flush\<close> returns an error
  exactly when the cache is uninitialized.
\<close>

theorem flush_clears_everything:
  "(\<exists>c rs. run (Cache_Init c0 de ci) (events @ [CallFlush]) = Returns (c, rs @ [FlushReply None])
           \<and> (\<forall>k now. Cache_Get c k now = Returns (NilValue, None)))
   \<and> ((snd (Cache_Flush c') = None) = (cache c' \<noteq> None))"
proof -
  from run_returns [OF strings_only_Init, of c0 de ci events] obtain c1 rs
    where r: "run (Cache_Init c0 de ci) events = Returns (c1, rs)"
      and i: "cache (Cache_Init c0 de ci) \<noteq> None \<longrightarrow> cache c1 \<noteq> None" by blast
  have "cache (Cache_Init c0 de ci) \<noteq> None" by (simp add: Cache_Init_cache)
  with i obtain g where g: "cache c1 = Some g" by auto
  let ?c = "c1\<lparr>cache := Some (gocache_Flush g)\<rparr>"
  have f: "Cache_Flush c1 = (?c, None)" using g by (simp add: Cache_Flush_def)
  then have "step c1 CallFlush = Returns (?c, FlushReply None)" by simp
  from run_snoc [OF r this]
  have a: "run (Cache_Init c0 de ci) (events @ [CallFlush]) = Returns (?c, rs @ [FlushReply None])" .
  have b: "Cache_Get ?c k now = Returns (NilValue, None)" for k now
    by (rule Cache_Get_absent [where g = "gocache_Flush g"]) (simp_all add: gocache_Flush_def)
  have c: "(snd (Cache_Flush c') = None) = (cache c' \<noteq> None)"
    by (cases "cache c'") (simp_all add: Cache_Flush_def)
  from a b c show ?thesis by blast
qed

theorem flush_clears_everything_witness:
  "\<exists>c rs. run (Cache_Init fresh 5 10)
            ([CallSet ''key1'' ''value1'' [] 1700000000000000000 1700000000000000100,
              CallSet ''key2'' ''value2'' [] 1700000000000000200 1700000000000000300]
             @ [CallFlush]) = Returns (c, rs @ [FlushReply None])
          \<and> Cache_Get c ''key1'' 1700000000000000400 = Returns (NilValue, None)
          \<and> Cache_Get c ''key2'' 1700000000000000400 = Returns (NilValue, None)"
  using flush_clears_everything [of fresh 5 10
      "[CallSet ''key1'' ''value1'' [] 1700000000000000000 1700000000000000100,
        CallSet ''key2'' ''value2'' [] 1700000000000000200 1700000000000000300]" fresh]
  by blast

subsection \<open>The empty string and the not-found value\<close>

text \<open>
  C8: on an initialized cache, \<open>Get(k)\<close> returns \<open>nil\<close> when \<open>k\<close> is absent and when its
  entry has expired, and returns the empty string itself after \<open>Set(k, "")\<close> (before that
  entry's TTL has elapsed); the two results differ.
\<close>

theorem empty_string_differs_from_not_found:
  assumes "cache c = Some g"
  shows "(items g k = None \<longrightarrow> Cache_Get c k now = Returns (NilValue, None))
       \<and> (\<forall>it. items g k = Some it \<longrightarrow> Expired it now \<longrightarrow>
              Cache_Get c k now = Returns (NilValue, None))
       \<and> (within_ttl g expiration t_store now \<longrightarrow>
              Cache_Get (fst (Cache_Set c k '''' expiration t_store t_lookup)) k now =
                Returns (StringValue '''', None))
       \<and> (Returns (StringValue '''', None) :: (iface \<times> error option) outcome) \<noteq>
              Returns (NilValue, None)"
  using Cache_Get_absent [OF assms] Cache_Get_expired [OF assms] Cache_Get_after_Set [OF assms]
  by simp

theorem empty_string_differs_from_not_found_witness:
  "cache (Cache_Init fresh 5 10) = Some (gocache_New (5 * Second) (10 * Second))
   \<and> items (gocache_New (5 * Second) (10 * Second)) ''k'' = None
   \<and> within_ttl (gocache_New (5 * Second) (10 * Second)) []
        1700000000000000000 1700000001000000000
   \<and> Cache_Get (Cache_Init fresh 5 10) ''k'' 1700000001000000000 = Returns (NilValue, None)
   \<and> Cache_Get (fst (Cache_Set (Cache_Init fresh 5 10) ''k'' '''' []
        1700000000000000000 1700000000000000100)) ''k'' 1700000001000000000 =
      Returns (StringValue '''', None)"
proof -
  have h2: "items (gocache_New (5 * Second) (10 * Second)) ''k'' = None"
    by (simp add: gocache_New_def)
  have h3: "within_ttl (gocache_New (5 * Second) (10 * Second)) []
              1700000000000000000 1700000001000000000"
    by (simp add: within_ttl_def example_ttl)
  show ?thesis
    using example_store h2 h3
      empty_string_differs_from_not_found [OF example_store, of "''k''" 1700000001000000000
        "[]" 1700000000000000000 1700000000000000100]
    by blast
qed

subsection \<open>What Set reports\<close>

text \<open>
  C6 says that \<open>Set\<close> on an initialized cache returns \<open>true\<close> and no error for every key,
  value and optional expiration. The boolean that \<open>Set\<close> returns is the result of the
  lookup it makes right after storing, so it is \<open>false\<close> when the new entry has expired by
  then, although the cache is initialized and the value has been stored. After
  \<open>Init(5, 10)\<close>, \<open>Set("k", "v", 1)\<close> whose store reads the clock at 1700000000000000000 ns
  and whose lookup reads it two seconds later stores the entry and returns \<open>false\<close> and no
  error. So does, with one microsecond between the two readings,
  \<open>Set("k", "v", 20211507185753197)\<close>: that many seconds times \<open>time.Second\<close> wraps around
  to a TTL of 512 ns.
\<close>

theorem set_reports_expired_entry:
  "cache (Cache_Init fresh 5 10) \<noteq> None
   \<and> snd (Cache_Set (Cache_Init fresh 5 10) ''k'' ''v'' [1]
        1700000000000000000 1700000002000000000) = (False, None)
   \<and> map_option (\<lambda>g. items g ''k'')
        (cache (fst (Cache_Set (Cache_Init fresh 5 10) ''k'' ''v'' [1]
           1700000000000000000 1700000002000000000))) =
      Some (Some \<lparr>Object = StringValue ''v'', Expiration = 1700000001000000000\<rparr>)
   \<and> snd (Cache_Set (Cache_Init fresh 5 10) ''k'' ''v'' [20211507185753197]
        1700000000000000000 1700000000000001000) = (False, None)
   \<and> map_option (\<lambda>g. items g ''k'')
        (cache (fst (Cache_Set (Cache_Init fresh 5 10) ''k'' ''v'' [20211507185753197]
           1700000000000000000 1700000000000001000))) =
      Some (Some \<lparr>Object = StringValue ''v'', Expiration = 1700000000000000512\<rparr>)"
  by (simp add: Cache_Set_def Cache_Init_def fresh_def gocache_Set_def gocache_Get_def
      gocache_New_def Expired_def Second_def DefaultExpiration_def NoExpiration_def
      word_sless_alt Let_def)

subsection \<open>No panic\<close>

text \<open>
  C9: every sequence of \<open>Init\<close>, \<open>Set\<close>, \<open>Get\<close> and \<open>Flush\<close> calls on a new \<open>Cache\<close>, with
  any arguments and clock readings and interleaved with any janitor sweeps, runs to its end
  without a panic, each event answered; the store then holds only strings, which is why the
  type assertion in \<open>Get\<close> succeeds.
\<close>

theorem no_operation_panics:
  "\<exists>c rs. run fresh events = Returns (c, rs) \<and> length rs = length events \<and> strings_only c"
  using run_returns [OF fresh_strings_only, of events] by blast

theorem no_operation_panics_witness:
  "\<exists>c rs. run fresh [CallGet ''a'' 5, CallInit 5 10, CallSet ''a'' '''' [] 10 11,
                       CallGet ''a'' 12, JanitorSweep 13, CallFlush] = Returns (c, rs)
          \<and> length rs = 6 \<and> strings_only c"
proof -
  have l: "length [CallGet ''a'' 5, CallInit 5 10, CallSet ''a'' '''' [] 10 11,
                   CallGet ''a'' 12, JanitorSweep 13, CallFlush] = 6" by simp
  from no_operation_panics [of "[CallGet ''a'' 5, CallInit 5 10, CallSet ''a'' '''' [] 10 11,
                       CallGet ''a'' 12, JanitorSweep 13, CallFlush]"]
  show ?thesis unfolding l .
qed

subsection \<open>Reinitialization and the janitors\<close>

text \<open>
  C10, as the code has it: \<open>Init\<close> installs the new store and stops no janitor. Each call
  adds the janitor of the new store (when the cleanup interval is positive) to those already
  running, and the store that was current before is kept, unchanged, by its janitor. A
  sweep of a janitor of a discarded store leaves the \<open>Cache\<close> and its current store as they
  are and stops no janitor.
\<close>

theorem init_stops_no_janitor:
  "running_janitors (process_Init p de ci) =
     running_janitors p + (if 0 <s ci * Second then 1 else 0)
   \<and> shared (process_Init p de ci) = Cache_Init (shared p) de ci
   \<and> (cache (shared p) = Some g \<longrightarrow> discarded (process_Init p de ci) = g # discarded p)
   \<and> shared (stale_sweep p i now) = shared p
   \<and> running_janitors (stale_sweep p i now) = running_janitors p"
proof -
  have a: "running_janitors (process_Init p de ci) =
             running_janitors p + (if 0 <s ci * Second then 1 else 0)"
    by (cases "cache (shared p)")
       (simp_all add: running_janitors_def stores_def process_Init_def Cache_Init_cache
          gocache_New_def)
  have b: "shared (process_Init p de ci) = Cache_Init (shared p) de ci"
    by (simp add: process_Init_def)
  have c: "discarded (process_Init p de ci) = g # discarded p" if "cache (shared p) = Some g"
    using that by (simp add: process_Init_def)
  have d: "shared (stale_sweep p i now) = shared p"
    by (simp add: stale_sweep_def)
  have e: "running_janitors (stale_sweep p i now) = running_janitors p"
  proof (cases "i < length (discarded p) \<and> janitor (discarded p ! i) \<noteq> None")
    case True
    have "janitor (gocache_DeleteExpired (discarded p ! i) now) = janitor (discarded p ! i)"
      by (simp add: gocache_DeleteExpired_def)
    with True have "length (filter (\<lambda>g. janitor g \<noteq> None)
                      ((discarded p)[i := gocache_DeleteExpired (discarded p ! i) now])) =
                    length (filter (\<lambda>g. janitor g \<noteq> None) (discarded p))"
      by (intro length_filter_update) simp_all
    with True show ?thesis
      by (simp add: running_janitors_def stores_def stale_sweep_def)
  next
    case False
    then show ?thesis by (auto simp: stale_sweep_def)
  qed
  from a b c d e show ?thesis by blast
qed

theorem init_stops_no_janitor_witness:
  "cache (shared (process_Init new_process 1 1)) = Some (gocache_New (1 * Second) (1 * Second))
   \<and> running_janitors (process_Init new_process 1 1) = 1
   \<and> running_janitors (process_Init (process_Init new_process 1 1) 5 10) = 2
   \<and> discarded (process_Init (process_Init new_process 1 1) 5 10) =
        [gocache_New (1 * Second) (1 * Second)]
   \<and> shared (stale_sweep (process_Init (process_Init new_process 1 1) 5 10) 0
        1700000000000000000) =
      Cache_Init (shared (process_Init new_process 1 1)) 5 10"
proof -
  have h: "cache (shared (process_Init new_process 1 1)) =
             Some (gocache_New (1 * Second) (1 * Second))"
    by (simp add: process_Init_def Cache_Init_cache)
  have n: "running_janitors (process_Init new_process 1 1) = 1"
    by (simp add: running_janitors_def stores_def process_Init_def new_process_def fresh_def
        Cache_Init_cache gocache_New_def Second_def word_sless_alt)
  have p: "(0 :: int64) <s 10 * Second" by (simp add: Second_def word_sless_alt)
  have d0: "discarded (process_Init new_process 1 1) = []"
    by (simp add: process_Init_def new_process_def fresh_def)
  show ?thesis
    using h n p d0
      init_stops_no_janitor [of "process_Init new_process 1 1" 5 10
        "gocache_New (1 * Second) (1 * Second)" 0 1700000000000000000]
      init_stops_no_janitor [of "process_Init (process_Init new_process 1 1) 5 10" 5 10
        "gocache_New (1 * Second) (1 * Second)" 0 1700000000000000000]
    by simp
qed

text \<open>
  C10 as stated fails: after \<open>Init(1, 1)\<close>, \<open>Set("k", "v", 1)\<close> and \<open>Init(1, 1)\<close> again, two
  janitors are running, and a sweep of the first one, two seconds later, deletes the
  expired entry \<open>"k"\<close> from the discarded store.
\<close>

theorem reinit_leaves_two_janitors:
  "running_janitors
     (process_Init (fst (process_Set (process_Init new_process 1 1) ''k'' ''v'' [1]
        1700000000000000000 1700000000000000100)) 1 1) = 2
   \<and> items (discarded
        (process_Init (fst (process_Set (process_Init new_process 1 1) ''k'' ''v'' [1]
           1700000000000000000 1700000000000000100)) 1 1) ! 0) ''k'' =
      Some \<lparr>Object = StringValue ''v'', Expiration = 1700000001000000000\<rparr>
   \<and> items (discarded (stale_sweep
        (process_Init (fst (process_Set (process_Init new_process 1 1) ''k'' ''v'' [1]
           1700000000000000000 1700000000000000100)) 1 1) 0 1700000002000000000) ! 0) ''k'' =
      None"
  by (simp add: running_janitors_def stores_def process_Init_def process_Set_def
      stale_sweep_def new_process_def fresh_def Cache_Init_def Cache_Set_def gocache_Set_def
      gocache_Get_def gocache_New_def gocache_DeleteExpired_def Expired_def Second_def
      DefaultExpiration_def NoExpiration_def word_sless_alt Let_def)

end
